theory Spec2Isabelle
  imports Main
begin

section \<open>Errors\<close>

text \<open>
  Every exception that the modelled functions of \<^verbatim>\<open>csap_node_app.py\<close> can raise is a
  value of this type. \<open>KeyError\<close>, \<open>ValueError\<close>, \<open>IndexError\<close> and \<open>TypeError\<close> are the
  Python exceptions of the same names; \<open>AssertionError\<close> is what the pandas of the
  source's time raises for a frame whose column names do not fit its rows; \<open>RFCError\<close>
  stands for any exception raised by \<^verbatim>\<open>cnxn.call\<close>, \<open>SinkError\<close> for any exception
  raised by \<^verbatim>\<open>sqlalchemy.create_engine\<close> or \<^verbatim>\<open>df.to_sql\<close>.
\<close>

datatype error =
    KeyError | ValueError | IndexError | TypeError | AssertionError | RFCError | SinkError

section \<open>Field names\<close>

text \<open>
  \<^verbatim>\<open>field.upper()\<close> for ASCII field names, as the data dictionary has them: the letters
  \<open>a\<close> to \<open>z\<close> are mapped to \<open>A\<close> to \<open>Z\<close> and every other character is kept. No
  property below depends on which characters are changed.
\<close>

definition upper_char :: "char \<Rightarrow> char" where
  "upper_char c =
     (case map_of (zip ''abcdefghijklmnopqrstuvwxyz'' ''ABCDEFGHIJKLMNOPQRSTUVWXYZ'') c of
        Some u \<Rightarrow> u
      | None \<Rightarrow> c)"

definition upper :: "string \<Rightarrow> string" where
  "upper s = map upper_char s"

section \<open>The metadata frame\<close>

text \<open>
  One row of the frame \<^verbatim>\<open>meta\<close> of \<^verbatim>\<open>get_meta\<close> after
  \<^verbatim>\<open>meta.LENG = meta.LENG.astype(int)\<close>: the index \<^verbatim>\<open>FIELDNAME\<close> and the column
  \<^verbatim>\<open>LENG\<close>. The other columns of DD03L play no part in the chunking; the remote call
  that fetches the rows and their conversion to integers happen before the model
  starts. In the source the integers are 64 bits wide; \<^verbatim>\<open>LENG\<close> is a six-digit number
  in DD03L, and the sums below are taken to stay in that range.
\<close>

datatype meta_row = Meta_Row (FIELDNAME: string) (LENG: int)

text \<open>
  \<^verbatim>\<open>meta.loc[key, 'LENG']\<close>. A label that no row carries raises \<open>KeyError\<close>. A label
  that one row carries gives that row's integer. A label that several rows carry gives
  a Series, which the caller adds to \<^verbatim>\<open>chunksum\<close> and then tests in
  \<^verbatim>\<open>if chunksum > sap_buffer_size\<close>: the truth value of a Series of two or more
  elements raises \<open>ValueError\<close>.
\<close>

definition loc :: "meta_row list \<Rightarrow> string \<Rightarrow> error + int" where
  "loc meta key =
     (case filter (\<lambda>r. FIELDNAME r = key) meta of
        [] \<Rightarrow> Inl KeyError
      | [r] \<Rightarrow> Inr (LENG r)
      | _ \<Rightarrow> Inl ValueError)"

section \<open>The chunk planner of \<^verbatim>\<open>get_meta\<close>\<close>

text \<open>
  The loop \<^verbatim>\<open>for field in fields\<close> of \<^verbatim>\<open>get_meta\<close> (lines 99 to 107). The state is
  the triple of the loop's variables \<^verbatim>\<open>vchunks\<close>, \<^verbatim>\<open>chunksum\<close> and \<^verbatim>\<open>chunk\<close>.
\<close>

fun vchunk_loop ::
  "meta_row list \<Rightarrow> int \<Rightarrow> string list \<Rightarrow> string list list \<times> int \<times> string list
     \<Rightarrow> error + (string list list \<times> int \<times> string list)" where
  "vchunk_loop meta sap_buffer_size [] st = Inr st"
| "vchunk_loop meta sap_buffer_size (field # rest) (vchunks, chunksum, chunk) =
     (case loc meta (upper field) of
        Inl e \<Rightarrow> Inl e
      | Inr leng \<Rightarrow>
          (let chunksum = chunksum + leng
           in if chunksum > sap_buffer_size
              then vchunk_loop meta sap_buffer_size rest (vchunks @ [chunk], 0, [field])
              else vchunk_loop meta sap_buffer_size rest (vchunks, chunksum, chunk @ [field])))"

text \<open>
  Lines 96 to 109: the initial state, the loop, and the final
  \<^verbatim>\<open>if chunk: vchunks.append(chunk)\<close>.
\<close>

definition plan_vchunks :: "meta_row list \<Rightarrow> string list \<Rightarrow> int \<Rightarrow> error + string list list" where
  "plan_vchunks meta fields sap_buffer_size =
     (case vchunk_loop meta sap_buffer_size fields ([], 0, []) of
        Inl e \<Rightarrow> Inl e
      | Inr (vchunks, chunksum, chunk) \<Rightarrow>
          Inr (if chunk \<noteq> [] then vchunks @ [chunk] else vchunks))"

text \<open>
  The dictionary \<^verbatim>\<open>{'meta_csv': meta_csv, 'vchunks': vchunks}\<close> that \<^verbatim>\<open>get_meta\<close>
  returns: \<open>meta_csv_of\<close> reads the entry \<^verbatim>\<open>'meta_csv'\<close> and \<open>vchunks_of\<close> the entry
  \<^verbatim>\<open>'vchunks'\<close>. The first holds the rows of the filtered frame; their serialisation by
  \<^verbatim>\<open>to_csv\<close> is not modelled.
\<close>

datatype metadata = Metadata (meta_csv_of: "meta_row list") (vchunks_of: "string list list")

text \<open>
  \<^verbatim>\<open>get_meta\<close> from line 88 on: \<open>meta_result\<close> is the frame before
  \<^verbatim>\<open>meta = meta[meta.LENG > 0]\<close>, \<open>fields\<close> the optional parameter of the same name
  (\<open>None\<close> when it is left out).
\<close>

definition get_meta :: "meta_row list \<Rightarrow> string list option \<Rightarrow> int \<Rightarrow> error + metadata" where
  "get_meta meta_result fields sap_buffer_size =
     (let meta = filter (\<lambda>r. LENG r > 0) meta_result;
          fields = (case fields of None \<Rightarrow> map FIELDNAME meta | Some fs \<Rightarrow> fs);
          meta_csv = meta
      in case plan_vchunks meta fields sap_buffer_size of
           Inl e \<Rightarrow> Inl e
         | Inr vchunks \<Rightarrow> Inr (Metadata meta_csv vchunks))"

text \<open>The summed byte width of a list of fields, an unknown field counting as 0.\<close>

definition width_of :: "meta_row list \<Rightarrow> string \<Rightarrow> int" where
  "width_of meta field = (case loc meta (upper field) of Inl e \<Rightarrow> 0 | Inr leng \<Rightarrow> leng)"

definition chunk_width :: "meta_row list \<Rightarrow> string list \<Rightarrow> int" where
  "chunk_width meta chunk = sum_list (map (width_of meta) chunk)"

section \<open>The remote row source\<close>

text \<open>
  The keyword arguments of one \<^verbatim>\<open>cnxn.call('BBP_RFC_READ_TABLE', ...)\<close> of \<^verbatim>\<open>read\<close>.
  A one-key dictionary \<^verbatim>\<open>{'TEXT': where}\<close> or \<^verbatim>\<open>{'FIELDNAME': fi}\<close> is represented by
  its value.
\<close>

datatype request =
  Request (QUERY_TABLE: string) (DELIMITER: string) (OPTIONS: "string list")
    (FIELDS: "string list") (ROWCOUNT: int) (ROWSKIPS: int) (NO_DATA: string)

definition gFIELDS :: "string list \<Rightarrow> string list" where
  "gFIELDS fields = map (\<lambda>fi. fi) fields"

text \<open>
  \<^verbatim>\<open>chunk_response['DATA']\<close>: \<open>DATA_None\<close> when it is \<^verbatim>\<open>None\<close>, otherwise \<open>DATA_Rows\<close> of
  the list of the \<^verbatim>\<open>'WA'\<close> strings of its entries.
\<close>

datatype response = DATA_None | DATA_Rows "string list"

text \<open>
  The connection \<^verbatim>\<open>cnxn\<close>, opened by the \<^verbatim>\<open>with\<close> statement. The remote system is
  outside the program, so its answer is a parameter: \<open>cnxn k req\<close> is what the remote
  answers to the request \<open>req\<close> when it is the \<open>k\<close>-th call made on the connection
  (counted from 0), either a response or a raised exception. An answer may thus depend
  on the request and on everything that was asked before. Opening and closing the
  connection are not modelled.
\<close>

type_synonym cnxn = "nat \<Rightarrow> request \<Rightarrow> error + response"

section \<open>Parsing a row\<close>

text \<open>
  \<^verbatim>\<open>s.split('|')\<close>, for any separator character: the pieces between the separators,
  one more than there are separators.
\<close>

fun split_on :: "char \<Rightarrow> string \<Rightarrow> string list" where
  "split_on sep [] = [[]]"
| "split_on sep (c # cs) =
     (if c = sep then [] # split_on sep cs
      else (case split_on sep cs of
              [] \<Rightarrow> [[c]]
            | w # ws \<Rightarrow> (c # w) # ws))"

text \<open>
  \<^verbatim>\<open>unicode.strip\<close>: the whitespace characters among the 8-bit characters are
  U+0009 to U+000D, U+001C to U+0020, U+0085 and U+00A0.
\<close>

definition isspace :: "char \<Rightarrow> bool" where
  "isspace c \<longleftrightarrow>
     c \<in> set [CHR 0x09, CHR 0x0A, CHR 0x0B, CHR 0x0C, CHR 0x0D, CHR 0x1C, CHR 0x1D,
              CHR 0x1E, CHR 0x1F, CHR 0x20, CHR 0x85, CHR 0xA0]"

definition strip :: "string \<Rightarrow> string" where
  "strip s = rev (dropWhile isspace (rev (dropWhile isspace s)))"

text \<open>
  Lines 158 and 159:
  \<^verbatim>\<open>[map(unicode.strip, x['WA'].split('|')) for x in chunk_response['DATA']]\<close>.
\<close>

definition parse_rows :: "string list \<Rightarrow> string list list" where
  "parse_rows was = map (\<lambda>wa. map strip (split_on CHR ''|'' wa)) was"

section \<open>The row assembler of \<^verbatim>\<open>read\<close>\<close>

text \<open>
  A list comprehension whose element expression can raise: the first exception ends
  the evaluation.
\<close>

fun collect :: "(error + 'a) list \<Rightarrow> error + 'a list" where
  "collect [] = Inr []"
| "collect (Inl e # xs) = Inl e"
| "collect (Inr x # xs) = (case collect xs of Inl e \<Rightarrow> Inl e | Inr ys \<Rightarrow> Inr (x # ys))"

text \<open>
  Lines 166 and 167: \<^verbatim>\<open>[data[idx] + chunkrow for idx, chunkrow in enumerate(chunk)]\<close>.
  \<^verbatim>\<open>data[idx]\<close> raises \<open>IndexError\<close> when \<^verbatim>\<open>idx\<close> is not below \<^verbatim>\<open>len(data)\<close>.
\<close>

definition append_columns ::
  "string list list \<Rightarrow> string list list \<Rightarrow> error + string list list" where
  "append_columns data chunk =
     collect (map (\<lambda>(idx, chunkrow).
                      if idx < length data then Inr (data ! idx @ chunkrow)
                      else Inl IndexError)
                (enumerate 0 chunk))"

text \<open>The request of lines 148 to 152 for one vchunk.\<close>

definition chunk_request :: "string \<Rightarrow> string list \<Rightarrow> int \<Rightarrow> int \<Rightarrow> string \<Rightarrow> request" where
  "chunk_request table_name vchunk ri n where' =
     Request table_name ''|'' [where'] (gFIELDS vchunk) n ri []"

text \<open>
  The loop \<^verbatim>\<open>for vchunk in vchunks\<close> of \<^verbatim>\<open>read\<close> (lines 147 to 168). The state holds
  the loop's variables \<^verbatim>\<open>data\<close> and \<^verbatim>\<open>fields\<close>, each \<open>None\<close> until it is first
  assigned, and the list of the requests sent so far on the connection. \<^verbatim>\<open>break\<close>
  ends the loop with the state as it is. \<^verbatim>\<open>fields += vchunk\<close> on a \<^verbatim>\<open>fields\<close>
  that is still \<^verbatim>\<open>None\<close> would raise \<open>TypeError\<close>. The vchunks are taken to be
  separate list objects, as \<^verbatim>\<open>json.loads\<close> in \<^verbatim>\<open>app_read\<close> builds them, so that
  extending \<^verbatim>\<open>fields\<close> in place changes no vchunk still to be read.
\<close>

fun read_loop ::
  "cnxn \<Rightarrow> string \<Rightarrow> int \<Rightarrow> int \<Rightarrow> string \<Rightarrow> string list list
     \<Rightarrow> string list list option \<times> string list option \<times> request list
     \<Rightarrow> error + (string list list option \<times> string list option \<times> request list)" where
  "read_loop cnxn table_name ri n where' [] st = Inr st"
| "read_loop cnxn table_name ri n where' (vchunk # rest) (data, fields, calls) =
     (let req = chunk_request table_name vchunk ri n where'
      in case cnxn (length calls) req of
           Inl e \<Rightarrow> Inl e
         | Inr DATA_None \<Rightarrow> Inr (data, fields, calls @ [req])
         | Inr (DATA_Rows was) \<Rightarrow>
             (let chunk = parse_rows was
              in case data of
                   None \<Rightarrow>
                     read_loop cnxn table_name ri n where' rest
                       (Some chunk, Some vchunk, calls @ [req])
                 | Some old \<Rightarrow>
                     (case append_columns old chunk of
                        Inl e \<Rightarrow> Inl e
                      | Inr new \<Rightarrow>
                          (case fields of
                             None \<Rightarrow> Inl TypeError
                           | Some fs \<Rightarrow>
                               read_loop cnxn table_name ri n where' rest
                                 (Some new, Some (fs @ vchunk), calls @ [req])))))"

section \<open>The data frame of \<^verbatim>\<open>read\<close>\<close>

text \<open>
  What \<^verbatim>\<open>read\<close> uses of the pandas library. A column label is a name, or a position
  when the frame is built without column names. A cell is a string, or \<open>None\<close> where a
  short row was filled up.
\<close>

datatype label = Name string | Position nat

datatype dataframe = Frame (columns: "label list") (rows: "string option list list")

text \<open>
  \<^verbatim>\<open>pd.DataFrame(data=data, columns=fields)\<close>. Without data, or with an empty list of
  rows, the frame has the given columns and no row. Otherwise the rows are filled up
  with \<open>None\<close> to the length of the longest one, and a list of column names of another
  length raises \<open>AssertionError\<close>.
\<close>

definition DataFrame :: "string list list option \<Rightarrow> string list option \<Rightarrow> error + dataframe" where
  "DataFrame data cols =
     (case data of
        None \<Rightarrow> Inr (Frame (case cols of None \<Rightarrow> [] | Some cs \<Rightarrow> map Name cs) [])
      | Some [] \<Rightarrow> Inr (Frame (case cols of None \<Rightarrow> [] | Some cs \<Rightarrow> map Name cs) [])
      | Some (r # rs) \<Rightarrow>
          (let k = foldr max (map length (r # rs)) 0;
               content = map (\<lambda>row. map Some row @ replicate (k - length row) None) (r # rs)
           in case cols of
                None \<Rightarrow> Inr (Frame (map Position [0..<k]) content)
              | Some cs \<Rightarrow>
                  if length cs \<noteq> k then Inl AssertionError
                  else Inr (Frame (map Name cs) content)))"

text \<open>
  \<^verbatim>\<open>df[key] = value\<close> for a string \<^verbatim>\<open>value\<close>: every column labelled \<^verbatim>\<open>key\<close> is
  overwritten, and when there is none a new last column is added.
\<close>

definition set_column :: "dataframe \<Rightarrow> label \<Rightarrow> string \<Rightarrow> dataframe" where
  "set_column df key v =
     (if key \<in> set (columns df)
      then Frame (columns df)
             (map (\<lambda>row. map (\<lambda>(c, x). if c = key then Some v else x) (zip (columns df) row))
                (rows df))
      else Frame (columns df @ [key]) (map (\<lambda>row. row @ [Some v]) (rows df)))"

section \<open>\<^verbatim>\<open>read\<close>\<close>

text \<open>
  The dictionary \<^verbatim>\<open>json_out\<close>. The entry \<^verbatim>\<open>'DATA'\<close> is \<open>None\<close> while the key is
  absent; when present it holds the frame that \<^verbatim>\<open>to_csv\<close> serialises.
\<close>

datatype json_out =
  Json_Out (STATUS: string) (TIMESTAMP: string) (COUNT: int) (DATA: "dataframe option")

text \<open>
  The persistence sink: \<open>to_sql cnxnstr name df\<close> stands for
  \<^verbatim>\<open>sqlalchemy.create_engine(cnxnstr)\<close> followed by
  \<^verbatim>\<open>df.to_sql(name, engine, if_exists='append', ...)\<close>, and is \<open>Some e\<close> when one of
  them raises \<open>e\<close>, \<open>None\<close> when the frame was appended.
\<close>

type_synonym sink = "string \<Rightarrow> string \<Rightarrow> dataframe \<Rightarrow> error option"

text \<open>
  \<^verbatim>\<open>read\<close>. \<open>utcnow\<close> is the formatted reading of the clock at line 171;
  \<open>sqlalchemy_cnxnstr\<close> and \<open>output_tablename\<close> are \<open>None\<close> when the caller passes
  \<^verbatim>\<open>None\<close>. The result
  is the dictionary that is returned (its serialisation by \<^verbatim>\<open>json.dumps\<close> is not
  modelled), together with the effects of the call: the requests sent on the
  connection, in order, and the writes made to the sink, each with its connection
  string, table name and frame.
\<close>

definition read ::
  "cnxn \<Rightarrow> sink \<Rightarrow> string \<Rightarrow> string \<Rightarrow> string list list \<Rightarrow> int \<Rightarrow> int \<Rightarrow> string
     \<Rightarrow> string option \<Rightarrow> string option \<Rightarrow> bool
     \<Rightarrow> error + (json_out \<times> request list \<times> (string \<times> string \<times> dataframe) list)" where
  "read cnxn to_sql utcnow table_name vchunks ri n where' sqlalchemy_cnxnstr
        output_tablename keep =
     (case read_loop cnxn table_name ri n where' vchunks (None, None, []) of
        Inl e \<Rightarrow> Inl e
      | Inr (data, fields, calls) \<Rightarrow>
          (let timestamp = utcnow
           in case DataFrame data fields of
                Inl e \<Rightarrow> Inl e
              | Inr df \<Rightarrow>
                  (let df = set_column df (Name ''TIMESTAMP'') timestamp;
                       count = int (length (rows df));
                       json_out = Json_Out ''FAIL'' timestamp count None
                   in case (case sqlalchemy_cnxnstr of
                              None \<Rightarrow> Inr (json_out, [])
                            | Some cnxnstr \<Rightarrow>
                                (let output_tablename =
                                       (case output_tablename of
                                          None \<Rightarrow> table_name
                                        | Some t \<Rightarrow> if t \<noteq> [] then t else table_name)
                                 in case to_sql cnxnstr output_tablename df of
                                      Some e \<Rightarrow> Inl e
                                    | None \<Rightarrow>
                                        Inr (Json_Out ''OK'' (TIMESTAMP json_out)
                                               (COUNT json_out) (DATA json_out),
                                             [(cnxnstr, output_tablename, df)]))) of
                        Inl e \<Rightarrow> Inl e
                      | Inr (json_out, written) \<Rightarrow>
                          Inr (if keep
                               then Json_Out ''OK'' (TIMESTAMP json_out) (COUNT json_out)
                                      (Some df)
                               else json_out,
                               calls, written))))"

section \<open>Example inputs\<close>

text \<open>A sink whose writes all succeed.\<close>

definition sink_ok :: sink where
  "sink_ok cnxnstr name df = None"

text \<open>A remote that reports no data for every request.\<close>

definition cnxn_no_data :: cnxn where
  "cnxn_no_data k req = Inr DATA_None"

text \<open>A remote that answers the first call with two rows and every later call with one.\<close>

definition cnxn_two_then_one :: cnxn where
  "cnxn_two_then_one k req =
     (if k = 0 then Inr (DATA_Rows [''1'', ''2'']) else Inr (DATA_Rows [''x'']))"

text \<open>A remote that answers the first call with one row and every later call with two.\<close>

definition cnxn_one_then_two :: cnxn where
  "cnxn_one_then_two k req =
     (if k = 0 then Inr (DATA_Rows [''1'']) else Inr (DATA_Rows [''x'', ''y'']))"

text \<open>
  A remote that answers the first call with two rows of two cells and every later call
  with two rows of one cell.
\<close>

definition cnxn_matching :: cnxn where
  "cnxn_matching k req =
     (if k = 0 then Inr (DATA_Rows [''1 |a'', ''2 |b'']) else Inr (DATA_Rows [''x'', ''y'']))"

section \<open>Properties of the chunk planner\<close>

lemma vchunk_loop_concat:
  "vchunk_loop meta b fields (vs, s, c) = Inr (vs', s', c') \<Longrightarrow>
     concat vs' @ c' = concat vs @ c @ fields"
  by (induction fields arbitrary: vs s c) (auto split: sum.splits if_splits simp: Let_def)

lemma vchunk_loop_total:
  "\<forall>f\<in>set fields. \<exists>w. loc meta (upper f) = Inr w \<Longrightarrow>
     \<exists>st'. vchunk_loop meta b fields (vs, s, c) = Inr st'"
  by (induction fields arbitrary: vs s c) (auto split: sum.splits if_splits simp: Let_def)

lemma vchunk_loop_known:
  "vchunk_loop meta b fields st = Inr st' \<Longrightarrow> f \<in> set fields \<Longrightarrow>
     \<exists>w. loc meta (upper f) = Inr w"
  by (induction meta b fields st rule: vchunk_loop.induct)
     (auto split: sum.splits if_splits simp: Let_def)

lemma plan_vchunks_known:
  "plan_vchunks meta fields b = Inr vs \<Longrightarrow> f \<in> set fields \<Longrightarrow>
     \<exists>w. loc meta (upper f) = Inr w"
  by (auto simp: plan_vchunks_def split: sum.splits dest: vchunk_loop_known)

lemma plan_vchunks_Inr_concat:
  assumes "plan_vchunks meta fields b = Inr vs"
  shows "concat vs = fields"
proof -
  from assms obtain vs' s c where
    run: "vchunk_loop meta b fields ([], 0, []) = Inr (vs', s, c)"
    and vs: "vs = (if c \<noteq> [] then vs' @ [c] else vs')"
    by (auto simp: plan_vchunks_def split: sum.splits)
  have "concat vs' @ c = fields"
    using vchunk_loop_concat [OF run] by simp
  then show ?thesis by (auto simp: vs)
qed

lemma loc_Inr_row:
  assumes "loc meta key = Inr w"
  shows "\<exists>r\<in>set meta. FIELDNAME r = key \<and> LENG r = w"
proof -
  from assms obtain r where
    f: "filter (\<lambda>r. FIELDNAME r = key) meta = [r]" and w: "LENG r = w"
    by (auto simp: loc_def split: list.splits)
  have "r \<in> set (filter (\<lambda>r. FIELDNAME r = key) meta)" by (simp add: f)
  then show ?thesis using w by auto
qed

text \<open>
  Claim C1. For every field list whose fields the catalog knows, and every budget, the
  chunk planner returns a list of vchunks, and concatenating them, in vchunk order then
  in the order inside each vchunk, gives back the input field list exactly: the same
  fields in the same order, none twice and none left out.
\<close>

theorem plan_vchunks_concat:
  assumes "\<forall>f\<in>set fields. \<exists>w. loc meta (upper f) = Inr w"
  shows "\<exists>vs. plan_vchunks meta fields sap_buffer_size = Inr vs \<and> concat vs = fields"
proof -
  obtain vs s c where
    run: "vchunk_loop meta sap_buffer_size fields ([], 0, []) = Inr (vs, s, c)"
    using vchunk_loop_total [OF assms, of sap_buffer_size "[]" 0 "[]"] by (metis prod_cases3)
  have "concat vs @ c = fields"
    using vchunk_loop_concat [OF run] by simp
  then show ?thesis
    by (auto simp: plan_vchunks_def run)
qed

theorem plan_vchunks_concat_witness:
  "\<exists>vs. plan_vchunks
          [Meta_Row ''A'' 100, Meta_Row ''B'' 50, Meta_Row ''C'' 500, Meta_Row ''D'' 30]
          [''a'', ''B'', ''C'', ''D''] 150 = Inr vs \<and>
        concat vs = [''a'', ''B'', ''C'', ''D'']"
  by (rule plan_vchunks_concat) (simp add: loc_def upper_def upper_char_def)

text \<open>
  Claim C2 says that every vchunk other than a single over-budget field has a summed
  width of at most the budget. With three fields of width 100 each and a budget of 150
  the planner returns the vchunk \<open>[B, C]\<close>, whose summed width is 200: after closing a
  vchunk the running sum restarts at 0 and not at the width of the field that opens the
  next one.
\<close>

theorem get_meta_chunk_over_budget:
  "get_meta [Meta_Row ''A'' 100, Meta_Row ''B'' 100, Meta_Row ''C'' 100] None 150 =
     Inr (Metadata [Meta_Row ''A'' 100, Meta_Row ''B'' 100, Meta_Row ''C'' 100]
            [[''A''], [''B'', ''C'']]) \<and>
   chunk_width [Meta_Row ''A'' 100, Meta_Row ''B'' 100, Meta_Row ''C'' 100] [''B'', ''C''] = 200"
  by (simp add: get_meta_def plan_vchunks_def chunk_width_def width_of_def loc_def upper_def
      upper_char_def)

text \<open>
  Claim C3 says that a field wider than the budget is alone in its vchunk. With the
  fields \<open>A\<close> of width 10, \<open>C\<close> of width 500 and \<open>D\<close> of width 30 and a budget of 150,
  the planner puts \<open>C\<close> and \<open>D\<close> into one vchunk.
\<close>

theorem get_meta_over_budget_field_grouped:
  "get_meta [Meta_Row ''A'' 10, Meta_Row ''C'' 500, Meta_Row ''D'' 30] None 150 =
     Inr (Metadata [Meta_Row ''A'' 10, Meta_Row ''C'' 500, Meta_Row ''D'' 30]
            [[''A''], [''C'', ''D'']])"
  by (simp add: get_meta_def plan_vchunks_def loc_def upper_def upper_char_def)

text \<open>
  Claim C4 says that the fields \<open>A\<close>, \<open>B\<close>, \<open>C\<close>, \<open>D\<close> of widths 100, 50, 500 and 30
  with a budget of 150 give the vchunks \<open>[[A, B], [C], [D]]\<close>. The planner returns
  \<open>[[A, B], [C, D]]\<close>.
\<close>

theorem get_meta_spec_example:
  "get_meta [Meta_Row ''A'' 100, Meta_Row ''B'' 50, Meta_Row ''C'' 500, Meta_Row ''D'' 30]
     (Some [''A'', ''B'', ''C'', ''D'']) 150 =
     Inr (Metadata [Meta_Row ''A'' 100, Meta_Row ''B'' 50, Meta_Row ''C'' 500, Meta_Row ''D'' 30]
            [[''A'', ''B''], [''C'', ''D'']])"
  by (simp add: get_meta_def plan_vchunks_def loc_def upper_def upper_char_def)

text \<open>
  Claim C5 says that every vchunk of the output is non-empty. When the first field is
  wider than the budget, the planner closes the still empty current vchunk and the
  output starts with an empty vchunk.
\<close>

theorem get_meta_empty_chunk:
  "get_meta [Meta_Row ''C'' 500] None 150 = Inr (Metadata [Meta_Row ''C'' 500] [[], [''C'']])"
  by (simp add: get_meta_def plan_vchunks_def loc_def upper_def upper_char_def)

text \<open>
  Claim C9, as amended. Every field of width 0 or less is removed before exposure: the
  frame that \<^verbatim>\<open>get_meta\<close> returns is the input frame without these rows, and every field
  of every returned vchunk is the name of a catalog row of positive width. When no
  field remains after the filtering and no field list is passed, \<^verbatim>\<open>get_meta\<close> returns
  normally, with an empty frame and an empty list of vchunks.
\<close>

theorem get_meta_filters:
  "(\<forall>md. get_meta meta_result fields sap_buffer_size = Inr md \<longrightarrow>
      meta_csv_of md = filter (\<lambda>r. 0 < LENG r) meta_result \<and>
      (\<forall>r\<in>set (meta_csv_of md). 0 < LENG r) \<and>
      (\<forall>chunk\<in>set (vchunks_of md). \<forall>f\<in>set chunk.
         \<exists>r\<in>set meta_result. FIELDNAME r = upper f \<and> 0 < LENG r)) \<and>
   ((\<forall>r\<in>set meta_result. LENG r \<le> 0) \<longrightarrow>
      get_meta meta_result None sap_buffer_size = Inr (Metadata [] []))"
proof (intro conjI allI impI)
  fix md assume g: "get_meta meta_result fields sap_buffer_size = Inr md"
  let ?meta = "filter (\<lambda>r. 0 < LENG r) meta_result"
  let ?fields = "case fields of None \<Rightarrow> map FIELDNAME ?meta | Some fs \<Rightarrow> fs"
  from g obtain vs where p: "plan_vchunks ?meta ?fields sap_buffer_size = Inr vs"
    and md: "md = Metadata ?meta vs"
    by (auto simp: get_meta_def Let_def split: sum.splits)
  show "meta_csv_of md = ?meta" by (simp add: md)
  show "\<forall>r\<in>set (meta_csv_of md). 0 < LENG r" by (simp add: md)
  show "\<forall>chunk\<in>set (vchunks_of md). \<forall>f\<in>set chunk.
         \<exists>r\<in>set meta_result. FIELDNAME r = upper f \<and> 0 < LENG r"
  proof (intro ballI)
    fix chunk f assume c: "chunk \<in> set (vchunks_of md)" and f: "f \<in> set chunk"
    then have "f \<in> set (concat vs)" by (auto simp: md)
    then have "f \<in> set ?fields" using plan_vchunks_Inr_concat [OF p] by simp
    then obtain w where "loc ?meta (upper f) = Inr w"
      using plan_vchunks_known [OF p] by blast
    then obtain r where "r \<in> set ?meta" "FIELDNAME r = upper f"
      using loc_Inr_row by blast
    then show "\<exists>r\<in>set meta_result. FIELDNAME r = upper f \<and> 0 < LENG r" by auto
  qed
next
  assume "\<forall>r\<in>set meta_result. LENG r \<le> 0"
  then have "filter (\<lambda>r. 0 < LENG r) meta_result = []"
    by (auto simp: filter_empty_conv)
  then show "get_meta meta_result None sap_buffer_size = Inr (Metadata [] [])"
    by (simp add: get_meta_def plan_vchunks_def)
qed

theorem get_meta_filters_witness:
  "get_meta [Meta_Row ''.INCLUDE'' 0, Meta_Row ''A'' 10] None 400 =
     Inr (Metadata [Meta_Row ''A'' 10] [[''A'']]) \<and>
   meta_csv_of (Metadata [Meta_Row ''A'' 10] [[''A'']]) =
     filter (\<lambda>r. 0 < LENG r) [Meta_Row ''.INCLUDE'' 0, Meta_Row ''A'' 10] \<and>
   get_meta [Meta_Row ''.INCLUDE'' 0] None 400 = Inr (Metadata [] [])"
proof -
  have run: "get_meta [Meta_Row ''.INCLUDE'' 0, Meta_Row ''A'' 10] None 400 =
               Inr (Metadata [Meta_Row ''A'' 10] [[''A'']])"
    by (simp add: get_meta_def plan_vchunks_def loc_def upper_def upper_char_def)
  have kept: "meta_csv_of (Metadata [Meta_Row ''A'' 10] [[''A'']]) =
                filter (\<lambda>r. 0 < LENG r) [Meta_Row ''.INCLUDE'' 0, Meta_Row ''A'' 10]"
    using get_meta_filters [of "[Meta_Row ''.INCLUDE'' 0, Meta_Row ''A'' 10]" None 400] run
    by blast
  have "\<forall>r\<in>set [Meta_Row ''.INCLUDE'' 0]. LENG r \<le> 0" by simp
  then have "get_meta [Meta_Row ''.INCLUDE'' 0] None 400 = Inr (Metadata [] [])"
    using get_meta_filters [of "[Meta_Row ''.INCLUDE'' 0]" None 400] by blast
  then show ?thesis using run kept by blast
qed

text \<open>
  The claim as first stated asks for an error when no field remains: on a catalog that
  holds only rows of width 0, \<^verbatim>\<open>get_meta\<close> returns a normal result.
\<close>

theorem get_meta_empty_catalog_returns:
  "get_meta [Meta_Row ''.INCLUDE'' 0, Meta_Row ''.INCLU--AP'' 0] None 400 =
     Inr (Metadata [] [])"
  by (simp add: get_meta_def plan_vchunks_def)

section \<open>Properties of the row assembler\<close>

lemma length_parse_rows: "length (parse_rows was) = length was"
  by (simp add: parse_rows_def)

lemma collect_enumerate:
  "collect (map (\<lambda>(idx, chunkrow).
                    if idx < length d then Inr (d ! idx @ chunkrow) else Inl IndexError)
              (enumerate k c)) =
     (if c = [] \<or> k + length c \<le> length d
      then Inr (map (\<lambda>(idx, chunkrow). d ! idx @ chunkrow) (enumerate k c))
      else Inl IndexError)"
  by (induction c arbitrary: k) auto

lemma append_columns_fits:
  assumes "length c \<le> length d"
  shows "append_columns d c = Inr (map (\<lambda>i. d ! i @ c ! i) [0..<length c])"
proof -
  have "map (\<lambda>(idx, chunkrow). d ! idx @ chunkrow) (enumerate 0 c) =
        map (\<lambda>i. d ! i @ c ! i) [0..<length c]"
    by (rule nth_equalityI) (simp_all add: nth_enumerate_eq)
  then show ?thesis
    using assms by (simp add: append_columns_def collect_enumerate)
qed

lemma append_columns_more:
  "length d < length c \<Longrightarrow> append_columns d c = Inl IndexError"
  by (auto simp: append_columns_def collect_enumerate)

text \<open>
  The loop from a state that already holds \<open>m\<close> rows, when every remaining call
  returns \<open>m\<close> rows: the rows grow cell by cell, the fields vchunk by vchunk.
\<close>

lemma read_loop_same_count:
  assumes "length chunks = length vchunks"
    and "length d = m"
    and "\<forall>k<length vchunks. \<exists>was.
           cnxn (length calls + k) (chunk_request table_name (vchunks ! k) ri n where') =
             Inr (DATA_Rows was) \<and>
           parse_rows was = chunks ! k \<and> length (chunks ! k) = m"
  shows "\<exists>d'. read_loop cnxn table_name ri n where' vchunks (Some d, Some fs, calls) =
           Inr (Some d', Some (fs @ concat vchunks),
                calls @ map (\<lambda>v. chunk_request table_name v ri n where') vchunks) \<and>
         length d' = m \<and>
         (\<forall>i<m. d' ! i = d ! i @ concat (map (\<lambda>c. c ! i) chunks))"
  using assms
proof (induction vchunks arbitrary: chunks d fs calls)
  case Nil
  then show ?case by simp
next
  case (Cons v rest)
  then obtain c cs where chunks: "chunks = c # cs" by (cases chunks) auto
  from Cons.prems(3) have "\<exists>was.
      cnxn (length calls + 0) (chunk_request table_name ((v # rest) ! 0) ri n where') =
        Inr (DATA_Rows was) \<and>
      parse_rows was = chunks ! 0 \<and> length (chunks ! 0) = m"
    by blast
  then obtain was where
    call: "cnxn (length calls) (chunk_request table_name v ri n where') = Inr (DATA_Rows was)"
    and pr: "parse_rows was = c" and lc: "length c = m"
    by (auto simp: chunks)
  let ?new = "map (\<lambda>i. d ! i @ c ! i) [0..<length c]"
  have app: "append_columns d c = Inr ?new"
    using append_columns_fits [of c d] lc Cons.prems(2) by simp
  have rest: "\<forall>k<length rest. \<exists>was.
      cnxn (length (calls @ [chunk_request table_name v ri n where']) + k)
        (chunk_request table_name (rest ! k) ri n where') = Inr (DATA_Rows was) \<and>
      parse_rows was = cs ! k \<and> length (cs ! k) = m"
  proof (intro allI impI)
    fix k assume "k < length rest"
    then have "Suc k < length (v # rest)" by simp
    with Cons.prems(3) have "\<exists>was.
        cnxn (length calls + Suc k) (chunk_request table_name ((v # rest) ! Suc k) ri n where') =
          Inr (DATA_Rows was) \<and>
        parse_rows was = chunks ! Suc k \<and> length (chunks ! Suc k) = m"
      by blast
    then show "\<exists>was.
      cnxn (length (calls @ [chunk_request table_name v ri n where']) + k)
        (chunk_request table_name (rest ! k) ri n where') = Inr (DATA_Rows was) \<and>
      parse_rows was = cs ! k \<and> length (cs ! k) = m"
      by (simp add: chunks)
  qed
  have len: "length cs = length rest" using Cons.prems(1) chunks by simp
  have lnew: "length ?new = m" using lc by simp
  from Cons.IH [OF len lnew rest, of "fs @ v"]
  obtain d' where
    run: "read_loop cnxn table_name ri n where' rest
            (Some ?new, Some (fs @ v), calls @ [chunk_request table_name v ri n where']) =
          Inr (Some d', Some ((fs @ v) @ concat rest),
               (calls @ [chunk_request table_name v ri n where']) @
               map (\<lambda>v. chunk_request table_name v ri n where') rest)"
    and ld: "length d' = m"
    and cells: "\<forall>i<m. d' ! i = ?new ! i @ concat (map (\<lambda>c. c ! i) cs)"
    by blast
  have "read_loop cnxn table_name ri n where' (v # rest) (Some d, Some fs, calls) =
        Inr (Some d', Some (fs @ concat (v # rest)),
             calls @ map (\<lambda>v. chunk_request table_name v ri n where') (v # rest))"
    using call pr app run by (simp add: Let_def)
  moreover have "\<forall>i<m. d' ! i = d ! i @ concat (map (\<lambda>c. c ! i) chunks)"
    using cells lc by (simp add: chunks)
  ultimately show ?case using ld by blast
qed

text \<open>
  The loop from a state that already holds \<open>m\<close> rows, when the calls before the
  \<open>k\<close>-th remaining one return \<open>m\<close> rows each and that one returns more.
\<close>

lemma read_loop_more_rows:
  assumes "k < length vchunks"
    and "length d = m"
    and "\<forall>j<k. \<exists>was.
           cnxn (length calls + j) (chunk_request table_name (vchunks ! j) ri n where') =
             Inr (DATA_Rows was) \<and> length was = m"
    and "cnxn (length calls + k) (chunk_request table_name (vchunks ! k) ri n where') =
           Inr (DATA_Rows was')"
    and "m < length was'"
  shows "read_loop cnxn table_name ri n where' vchunks (Some d, Some fs, calls) = Inl IndexError"
  using assms
proof (induction vchunks arbitrary: k d fs calls)
  case Nil
  then show ?case by simp
next
  case (Cons v rest)
  show ?case
  proof (cases k)
    case 0
    with Cons.prems have
      call: "cnxn (length calls) (chunk_request table_name v ri n where') = Inr (DATA_Rows was')"
      by simp
    have "append_columns d (parse_rows was') = Inl IndexError"
      using Cons.prems(2,5) by (simp add: append_columns_more length_parse_rows)
    then show ?thesis using call by (simp add: Let_def)
  next
    case (Suc j)
    from Cons.prems(3) Suc have "\<exists>was.
        cnxn (length calls + 0) (chunk_request table_name ((v # rest) ! 0) ri n where') =
          Inr (DATA_Rows was) \<and> length was = m"
      by blast
    then obtain was where
      call: "cnxn (length calls) (chunk_request table_name v ri n where') = Inr (DATA_Rows was)"
      and lw: "length was = m"
      by auto
    let ?c = "parse_rows was"
    let ?new = "map (\<lambda>i. d ! i @ ?c ! i) [0..<length ?c]"
    let ?calls = "calls @ [chunk_request table_name v ri n where']"
    have app: "append_columns d ?c = Inr ?new"
      using append_columns_fits [of ?c d] lw Cons.prems(2) by (simp add: length_parse_rows)
    have lnew: "length ?new = m" using lw by (simp add: length_parse_rows)
    have jlt: "j < length rest" using Cons.prems(1) Suc by simp
    have before: "\<forall>i<j. \<exists>was.
        cnxn (length ?calls + i) (chunk_request table_name (rest ! i) ri n where') =
          Inr (DATA_Rows was) \<and> length was = m"
    proof (intro allI impI)
      fix i assume "i < j"
      then have "Suc i < k" using Suc by simp
      with Cons.prems(3) have "\<exists>was.
          cnxn (length calls + Suc i) (chunk_request table_name ((v # rest) ! Suc i) ri n where') =
            Inr (DATA_Rows was) \<and> length was = m"
        by blast
      then show "\<exists>was.
        cnxn (length ?calls + i) (chunk_request table_name (rest ! i) ri n where') =
          Inr (DATA_Rows was) \<and> length was = m"
        by simp
    qed
    have at: "cnxn (length ?calls + j) (chunk_request table_name (rest ! j) ri n where') =
                Inr (DATA_Rows was')"
      using Cons.prems(4) Suc by simp
    have "read_loop cnxn table_name ri n where' rest (Some ?new, Some (fs @ v), ?calls) =
            Inl IndexError"
      by (rule Cons.IH [OF jlt lnew before at Cons.prems(5)])
    then show ?thesis using call app by (simp add: Let_def)
  qed
qed

lemma DataFrame_rows:
  "DataFrame data fields = Inr df \<Longrightarrow>
     length (rows df) = length (case data of None \<Rightarrow> [] | Some d \<Rightarrow> d)"
  by (auto simp: DataFrame_def Let_def split: option.splits list.splits if_splits)

lemma length_rows_set_column: "length (rows (set_column df key v)) = length (rows df)"
  by (simp add: set_column_def)

text \<open>
  Claim C6, as amended. During the assembly of one row window, when the vchunks before
  the \<open>k\<close>-th (\<open>k\<close> at least 1) all returned the row count \<open>m\<close> of the first vchunk and
  the \<open>k\<close>-th returns more than \<open>m\<close> rows, \<^verbatim>\<open>read\<close> fails with an \<open>IndexError\<close> and
  returns no dataset, whatever the sink and \<^verbatim>\<open>keep\<close> are.
\<close>

theorem read_more_rows_IndexError:
  assumes "0 < k" and "k < length vchunks"
    and "\<forall>j<k. \<exists>was.
           cnxn j (chunk_request table_name (vchunks ! j) ri n where') = Inr (DATA_Rows was) \<and>
           length was = m"
    and "cnxn k (chunk_request table_name (vchunks ! k) ri n where') = Inr (DATA_Rows was')"
    and "m < length was'"
  shows "read cnxn to_sql utcnow table_name vchunks ri n where' sqlalchemy_cnxnstr
           output_tablename keep = Inl IndexError"
proof -
  obtain v rest where vs: "vchunks = v # rest" using assms(2) by (cases vchunks) auto
  obtain j where k: "k = Suc j" using assms(1) by (cases k) auto
  from assms(1,3) have "\<exists>was.
      cnxn 0 (chunk_request table_name (vchunks ! 0) ri n where') = Inr (DATA_Rows was) \<and>
      length was = m"
    by blast
  then obtain was where
    call: "cnxn 0 (chunk_request table_name v ri n where') = Inr (DATA_Rows was)"
    and lw: "length was = m"
    by (auto simp: vs)
  let ?calls = "[chunk_request table_name v ri n where']"
  have jlt: "j < length rest" using assms(2) by (simp add: vs k)
  have lp: "length (parse_rows was) = m" using lw by (simp add: length_parse_rows)
  have before: "\<forall>i<j. \<exists>was.
      cnxn (length ?calls + i) (chunk_request table_name (rest ! i) ri n where') =
        Inr (DATA_Rows was) \<and> length was = m"
  proof (intro allI impI)
    fix i assume "i < j"
    then have "Suc i < k" by (simp add: k)
    with assms(3) have "\<exists>was.
        cnxn (Suc i) (chunk_request table_name (vchunks ! Suc i) ri n where') =
          Inr (DATA_Rows was) \<and> length was = m"
      by blast
    then show "\<exists>was.
      cnxn (length ?calls + i) (chunk_request table_name (rest ! i) ri n where') =
        Inr (DATA_Rows was) \<and> length was = m"
      by (simp add: vs)
  qed
  have at: "cnxn (length ?calls + j) (chunk_request table_name (rest ! j) ri n where') =
              Inr (DATA_Rows was')"
    using assms(4) by (simp add: vs k)
  have "read_loop cnxn table_name ri n where' rest (Some (parse_rows was), Some v, ?calls) =
          Inl IndexError"
    by (rule read_loop_more_rows [OF jlt lp before at assms(5)])
  then have "read_loop cnxn table_name ri n where' vchunks (None, None, []) = Inl IndexError"
    using call by (simp add: vs Let_def)
  then show ?thesis by (simp add: read_def)
qed

theorem read_more_rows_IndexError_witness:
  "read cnxn_one_then_two sink_ok ''2016-01-01 00:00:00'' ''T'' [[''A''], [''B'']] 0 10 [] None
     None True = Inl IndexError"
  by (rule read_more_rows_IndexError [where k = 1 and m = 1 and was' = "[''x'', ''y'']"])
     (simp_all add: cnxn_one_then_two_def)

text \<open>
  The claim as first stated asks for a failure on every differing row count: when the
  second vchunk returns one row after the first returned two, \<^verbatim>\<open>read\<close> returns a
  dataset of one row.
\<close>

theorem read_fewer_rows_returns:
  "read cnxn_two_then_one sink_ok ''2016-01-01 00:00:00'' ''T'' [[''A''], [''B'']] 0 10 [] None
     None True =
   Inr (Json_Out ''OK'' ''2016-01-01 00:00:00'' 1
          (Some (Frame [Name ''A'', Name ''B'', Name ''TIMESTAMP'']
                   [[Some ''1'', Some ''x'', Some ''2016-01-01 00:00:00'']])),
        [Request ''T'' ''|'' [[]] [''A''] 10 0 [], Request ''T'' ''|'' [[]] [''B''] 10 0 []], [])"
  by (simp add: read_def cnxn_two_then_one_def chunk_request_def gFIELDS_def DataFrame_def
      set_column_def parse_rows_def strip_def isspace_def append_columns_def enumerate_eq_zip
      Let_def)

text \<open>
  The loop from its initial state, when every call returns \<open>m\<close> rows.
\<close>

lemma read_loop_from_start:
  assumes "vchunks \<noteq> []" and "length chunks = length vchunks"
    and "\<forall>k<length vchunks. \<exists>was.
           cnxn k (chunk_request table_name (vchunks ! k) ri n where') = Inr (DATA_Rows was) \<and>
           parse_rows was = chunks ! k \<and> length (chunks ! k) = m"
  shows "\<exists>data. read_loop cnxn table_name ri n where' vchunks (None, None, []) =
           Inr (Some data, Some (concat vchunks),
                map (\<lambda>v. chunk_request table_name v ri n where') vchunks) \<and>
         length data = m \<and>
         (\<forall>i<m. data ! i = concat (map (\<lambda>c. c ! i) chunks))"
proof -
  obtain v rest where vs: "vchunks = v # rest" using assms(1) by (cases vchunks) auto
  obtain c cs where chunks: "chunks = c # cs" using assms(2) vs by (cases chunks) auto
  from assms(3) have "\<exists>was.
      cnxn 0 (chunk_request table_name (vchunks ! 0) ri n where') = Inr (DATA_Rows was) \<and>
      parse_rows was = chunks ! 0 \<and> length (chunks ! 0) = m"
    using vs by auto
  then obtain was where
    call: "cnxn 0 (chunk_request table_name v ri n where') = Inr (DATA_Rows was)"
    and pr: "parse_rows was = c" and lc: "length c = m"
    by (auto simp: vs chunks)
  let ?calls = "[chunk_request table_name v ri n where']"
  have len: "length cs = length rest" using assms(2) by (simp add: vs chunks)
  have others: "\<forall>k<length rest. \<exists>was.
      cnxn (length ?calls + k) (chunk_request table_name (rest ! k) ri n where') =
        Inr (DATA_Rows was) \<and>
      parse_rows was = cs ! k \<and> length (cs ! k) = m"
  proof (intro allI impI)
    fix k assume "k < length rest"
    then have "Suc k < length vchunks" by (simp add: vs)
    with assms(3) have "\<exists>was.
        cnxn (Suc k) (chunk_request table_name (vchunks ! Suc k) ri n where') =
          Inr (DATA_Rows was) \<and>
        parse_rows was = chunks ! Suc k \<and> length (chunks ! Suc k) = m"
      by blast
    then show "\<exists>was.
      cnxn (length ?calls + k) (chunk_request table_name (rest ! k) ri n where') =
        Inr (DATA_Rows was) \<and>
      parse_rows was = cs ! k \<and> length (cs ! k) = m"
      by (simp add: vs chunks)
  qed
  from read_loop_same_count [OF len lc others, of v]
  obtain d' where
    run: "read_loop cnxn table_name ri n where' rest (Some c, Some v, ?calls) =
          Inr (Some d', Some (v @ concat rest),
               ?calls @ map (\<lambda>v. chunk_request table_name v ri n where') rest)"
    and ld: "length d' = m"
    and cells: "\<forall>i<m. d' ! i = c ! i @ concat (map (\<lambda>c. c ! i) cs)"
    by blast
  have "read_loop cnxn table_name ri n where' vchunks (None, None, []) =
        Inr (Some d', Some (concat vchunks),
             map (\<lambda>v. chunk_request table_name v ri n where') vchunks)"
    using call run pr by (simp add: vs Let_def)
  moreover have "\<forall>i<m. d' ! i = concat (map (\<lambda>c. c ! i) chunks)"
    using cells by (simp add: chunks)
  ultimately show ?thesis using ld by blast
qed

text \<open>
  Claim C7. When there is at least one vchunk and the fetch of every vchunk returns
  \<open>m\<close> rows, \<open>chunks ! k\<close> being the parsed rows of the \<open>k\<close>-th vchunk, the loop ends
  with \<open>m\<close> assembled rows, row \<open>i\<close> being the concatenation of the cells of row \<open>i\<close>
  of every vchunk in vchunk order; the assembled field list is the concatenation of the
  vchunks in vchunk order; and one request per vchunk was sent, in vchunk order.
\<close>

theorem read_loop_assembles:
  assumes "vchunks \<noteq> []" and "length chunks = length vchunks"
    and "\<forall>k<length vchunks. \<exists>was.
           cnxn k (chunk_request table_name (vchunks ! k) ri n where') = Inr (DATA_Rows was) \<and>
           parse_rows was = chunks ! k \<and> length (chunks ! k) = m"
  shows "\<exists>data. read_loop cnxn table_name ri n where' vchunks (None, None, []) =
           Inr (Some data, Some (concat vchunks),
                map (\<lambda>v. chunk_request table_name v ri n where') vchunks) \<and>
         length data = m \<and>
         (\<forall>i<m. data ! i = concat (map (\<lambda>c. c ! i) chunks))"
  using assms by (rule read_loop_from_start)

theorem read_loop_assembles_witness:
  "read_loop cnxn_matching ''T'' 0 10 [] [[''A'', ''B''], [''C'']] (None, None, []) =
      Inr (Some [[''1'', ''a'', ''x''], [''2'', ''b'', ''y'']], Some [''A'', ''B'', ''C''],
           [Request ''T'' ''|'' [[]] [''A'', ''B''] 10 0 [], Request ''T'' ''|'' [[]] [''C''] 10 0 []])"
proof -
  let ?chunks = "[[[''1'', ''a''], [''2'', ''b'']], [[''x''], [''y'']]]"
  have "\<exists>data. read_loop cnxn_matching ''T'' 0 10 [] [[''A'', ''B''], [''C'']] (None, None, []) =
           Inr (Some data, Some (concat [[''A'', ''B''], [''C'']]),
                map (\<lambda>v. chunk_request ''T'' v 0 10 []) [[''A'', ''B''], [''C'']]) \<and>
         length data = 2 \<and>
         (\<forall>i<2. data ! i = concat (map (\<lambda>c. c ! i) ?chunks))"
    by (rule read_loop_assembles)
       (simp_all add: cnxn_matching_def parse_rows_def strip_def isspace_def less_Suc_eq
          numeral_2_eq_2)
  then obtain data where
    run: "read_loop cnxn_matching ''T'' 0 10 [] [[''A'', ''B''], [''C'']] (None, None, []) =
           Inr (Some data, Some (concat [[''A'', ''B''], [''C'']]),
                map (\<lambda>v. chunk_request ''T'' v 0 10 []) [[''A'', ''B''], [''C'']])"
    and len: "length data = 2"
    and cells: "\<forall>i<2. data ! i = concat (map (\<lambda>c. c ! i) ?chunks)"
    by blast
  have "data ! 0 = [''1'', ''a'', ''x'']" "data ! 1 = [''2'', ''b'', ''y'']"
    using cells by simp_all
  then have "data = [[''1'', ''a'', ''x''], [''2'', ''b'', ''y'']]"
    using len by (intro nth_equalityI) (auto simp: less_Suc_eq numeral_2_eq_2)
  then show ?thesis using run by (simp add: chunk_request_def gFIELDS_def)
qed

lemma foldr_max_same:
  "\<forall>r\<in>set xs. length r = L \<Longrightarrow> foldr max (map length xs) 0 = (if xs = [] then 0 else L)"
  by (induction xs) auto

lemma DataFrame_rectangular:
  assumes "\<forall>r\<in>set d. length r = length cs"
  shows "DataFrame (Some d) (Some cs) = Inr (Frame (map Name cs) (map (map Some) d))"
proof (cases d)
  case Nil
  then show ?thesis by (simp add: DataFrame_def)
next
  case (Cons r rs)
  have k: "foldr max (map length (r # rs)) 0 = length cs"
    using foldr_max_same [of "r # rs" "length cs"] assms Cons by simp
  have "map (\<lambda>row. map Some row @ replicate (length cs - length row) None) (r # rs) =
        map (map Some) (r # rs)"
    using assms Cons by (intro map_cong) auto
  then show ?thesis
    using k assms Cons by (simp add: DataFrame_def Let_def del: foldr.simps)
qed

text \<open>
  The same window seen from the caller, for \<^verbatim>\<open>keep\<close> true and no sink: when every row
  of every vchunk has one cell per field of the vchunk and no field is called
  \<open>TIMESTAMP\<close>, the frame that is returned has the fields of the vchunks, in order,
  followed by \<open>TIMESTAMP\<close> as its columns, and the assembled rows, each followed by
  the timestamp, as its rows.
\<close>

lemma read_keep_frame:
  assumes "vchunks \<noteq> []" and "length chunks = length vchunks"
    and "\<forall>k<length vchunks. \<exists>was.
           cnxn k (chunk_request table_name (vchunks ! k) ri n where') = Inr (DATA_Rows was) \<and>
           parse_rows was = chunks ! k \<and> length (chunks ! k) = m"
    and "\<forall>k<length vchunks. \<forall>row\<in>set (chunks ! k). length row = length (vchunks ! k)"
    and "''TIMESTAMP'' \<notin> set (concat vchunks)"
  shows "\<exists>data. read cnxn to_sql utcnow table_name vchunks ri n where' None output_tablename True =
           Inr (Json_Out ''OK'' utcnow (int m)
                  (Some (Frame (map Name (concat vchunks) @ [Name ''TIMESTAMP''])
                           (map (\<lambda>row. map Some row @ [Some utcnow]) data))),
                map (\<lambda>v. chunk_request table_name v ri n where') vchunks, []) \<and>
         length data = m \<and>
         (\<forall>i<m. data ! i = concat (map (\<lambda>c. c ! i) chunks))"
proof -
  from read_loop_from_start [where cnxn = cnxn and chunks = chunks, OF assms(1,2,3)]
  obtain data where
    run: "read_loop cnxn table_name ri n where' vchunks (None, None, []) =
           Inr (Some data, Some (concat vchunks),
                map (\<lambda>v. chunk_request table_name v ri n where') vchunks)"
    and len: "length data = m"
    and cells: "\<forall>i<m. data ! i = concat (map (\<lambda>c. c ! i) chunks)"
    by blast
  have rect: "\<forall>r\<in>set data. length r = length (concat vchunks)"
  proof
    fix r assume "r \<in> set data"
    then obtain i where i: "i < m" and r: "r = data ! i"
      using len by (auto simp: in_set_conv_nth)
    have "map (\<lambda>c. length (c ! i)) chunks = map length vchunks"
    proof (rule nth_equalityI)
      show "length (map (\<lambda>c. length (c ! i)) chunks) = length (map length vchunks)"
        using assms(2) by simp
    next
      fix k assume "k < length (map (\<lambda>c. length (c ! i)) chunks)"
      then have k: "k < length vchunks" using assms(2) by simp
      with assms(3) have "length (chunks ! k) = m" by blast
      then have "chunks ! k ! i \<in> set (chunks ! k)" using i by simp
      with assms(4) k have "length (chunks ! k ! i) = length (vchunks ! k)" by blast
      then show "map (\<lambda>c. length (c ! i)) chunks ! k = map length vchunks ! k"
        using k assms(2) by simp
    qed
    then have "length (concat (map (\<lambda>c. c ! i) chunks)) = length (concat vchunks)"
      by (simp add: length_concat comp_def)
    then show "length r = length (concat vchunks)" using cells i r by simp
  qed
  have frame: "DataFrame (Some data) (Some (concat vchunks)) =
                 Inr (Frame (map Name (concat vchunks)) (map (map Some) data))"
    by (rule DataFrame_rectangular [OF rect])
  have new: "Name ''TIMESTAMP'' \<notin> set (map Name (concat vchunks))"
    using assms(5) by auto
  have "read cnxn to_sql utcnow table_name vchunks ri n where' None output_tablename True =
           Inr (Json_Out ''OK'' utcnow (int m)
                  (Some (Frame (map Name (concat vchunks) @ [Name ''TIMESTAMP''])
                           (map (\<lambda>row. map Some row @ [Some utcnow]) data))),
                map (\<lambda>v. chunk_request table_name v ri n where') vchunks, [])"
    using run frame new len by (simp add: read_def Let_def set_column_def comp_def)
  then show ?thesis using len cells by blast
qed

text \<open>
  Claim C8, as amended. If the remote reports no data for the first vchunk of a window,
  \<^verbatim>\<open>read\<close> sends no further request, and the frame it builds has no row, so the
  reported count is 0. Without a sink the call returns, with status \<open>OK\<close> when
  \<^verbatim>\<open>keep\<close> is true and status \<open>FAIL\<close> when it is false. With a sink the call returns
  with status \<open>OK\<close> when the write succeeds and raises the sink's exception otherwise.
\<close>

theorem read_first_no_data:
  assumes "cnxn 0 (chunk_request table_name vchunk ri n where') = Inr DATA_None"
  shows "read cnxn to_sql utcnow table_name (vchunk # rest) ri n where' sqlalchemy_cnxnstr
           output_tablename keep =
         (let df = Frame [Name ''TIMESTAMP''] [];
              calls = [chunk_request table_name vchunk ri n where'];
              csv = (if keep then Some df else None)
          in case sqlalchemy_cnxnstr of
               None \<Rightarrow> Inr (Json_Out (if keep then ''OK'' else ''FAIL'') utcnow 0 csv, calls, [])
             | Some cnxnstr \<Rightarrow>
                 (let name = (case output_tablename of
                                None \<Rightarrow> table_name
                              | Some t \<Rightarrow> if t \<noteq> [] then t else table_name)
                  in case to_sql cnxnstr name df of
                       Some e \<Rightarrow> Inl e
                     | None \<Rightarrow>
                         Inr (Json_Out ''OK'' utcnow 0 csv, calls, [(cnxnstr, name, df)])))"
  using assms
  by (simp add: read_def Let_def DataFrame_def set_column_def split: option.splits)

theorem read_first_no_data_witness:
  "read cnxn_no_data sink_ok ''2016-01-01 00:00:00'' ''T'' [[''A''], [''B'']] 0 10 [] (Some ''db'')
     None False =
   Inr (Json_Out ''OK'' ''2016-01-01 00:00:00'' 0 None,
        [Request ''T'' ''|'' [[]] [''A''] 10 0 []],
        [(''db'', ''T'', Frame [Name ''TIMESTAMP''] [])])"
proof -
  have "cnxn_no_data 0 (chunk_request ''T'' [''A''] 0 10 []) = Inr DATA_None"
    by (simp add: cnxn_no_data_def)
  from read_first_no_data [where cnxn = cnxn_no_data and to_sql = sink_ok
      and utcnow = "''2016-01-01 00:00:00''" and rest = "[[''B'']]"
      and sqlalchemy_cnxnstr = "Some ''db''" and output_tablename = None and keep = False,
      OF this]
  show ?thesis
    by (simp add: sink_ok_def chunk_request_def gFIELDS_def)
qed

text \<open>
  The claim as first stated gives the status \<open>OK\<close> in every case: without a sink and
  with \<^verbatim>\<open>keep\<close> false the status is \<open>FAIL\<close>.
\<close>

theorem read_first_no_data_FAIL:
  "read cnxn_no_data sink_ok ''2016-01-01 00:00:00'' ''T'' [[''A''], [''B'']] 0 10 [] None
     None False =
   Inr (Json_Out ''FAIL'' ''2016-01-01 00:00:00'' 0 None,
        [Request ''T'' ''|'' [[]] [''A''] 10 0 []], [])"
  by (simp add: read_def cnxn_no_data_def chunk_request_def gFIELDS_def DataFrame_def
      set_column_def)

text \<open>
  Claim C10. When \<^verbatim>\<open>read\<close> is called with \<^verbatim>\<open>sqlalchemy_cnxnstr = None\<close> and \<^verbatim>\<open>keep\<close>
  false, and the loop and the construction of the frame raise nothing, the call
  returns the status \<open>FAIL\<close>, the timestamp, the number of assembled rows as count and
  no data, and nothing is written to the sink.
\<close>

theorem read_no_sink_no_keep:
  assumes "read_loop cnxn table_name ri n where' vchunks (None, None, []) =
             Inr (data, fields, calls)"
    and "DataFrame data fields = Inr df"
  shows "read cnxn to_sql utcnow table_name vchunks ri n where' None output_tablename False =
           Inr (Json_Out ''FAIL'' utcnow
                  (int (length (case data of None \<Rightarrow> [] | Some d \<Rightarrow> d))) None,
                calls, [])"
  using assms DataFrame_rows [OF assms(2)]
  by (simp add: read_def Let_def length_rows_set_column)

theorem read_no_sink_no_keep_witness:
  "read cnxn_matching sink_ok ''2016-01-01 00:00:00'' ''T'' [[''A'', ''B''], [''C'']] 0 10 [] None
     None False =
   Inr (Json_Out ''FAIL'' ''2016-01-01 00:00:00'' 2 None,
        [Request ''T'' ''|'' [[]] [''A'', ''B''] 10 0 [], Request ''T'' ''|'' [[]] [''C''] 10 0 []],
        [])"
proof -
  have loop: "read_loop cnxn_matching ''T'' 0 10 [] [[''A'', ''B''], [''C'']] (None, None, []) =
      Inr (Some [[''1'', ''a'', ''x''], [''2'', ''b'', ''y'']], Some [''A'', ''B'', ''C''],
           [Request ''T'' ''|'' [[]] [''A'', ''B''] 10 0 [], Request ''T'' ''|'' [[]] [''C''] 10 0 []])"
    by (simp add: cnxn_matching_def chunk_request_def gFIELDS_def parse_rows_def strip_def
        isspace_def append_columns_def enumerate_eq_zip)
  have frame: "DataFrame (Some [[''1'', ''a'', ''x''], [''2'', ''b'', ''y'']])
                 (Some [''A'', ''B'', ''C'']) =
      Inr (Frame [Name ''A'', Name ''B'', Name ''C'']
             [[Some ''1'', Some ''a'', Some ''x''], [Some ''2'', Some ''b'', Some ''y'']])"
    by (simp add: DataFrame_def)
  from read_no_sink_no_keep [where cnxn = cnxn_matching and to_sql = sink_ok
      and utcnow = "''2016-01-01 00:00:00''" and output_tablename = None, OF loop frame]
  show ?thesis by simp
qed

end
